theory Spec2Isabelle
  imports Main "HOL-Library.Char_ord" "HOL-Library.List_Lexorder"
begin

section \<open>Characters and strings\<close>

text \<open>
  A JavaScript string is modelled as a \<^typ>\<open>string\<close>; each \<^typ>\<open>char\<close> stands for one
  UTF-16 code unit in the range 0..255. The whitespace class below is what \<open>/\s/\<close> and
  \<open>String.prototype.trim\<close> recognise in that range, and \<open>toLowerCase\<close> is the case
  mapping of that range.
\<close>

definition isSpace :: "char \<Rightarrow> bool" where
  "isSpace ch \<longleftrightarrow>
     ch = CHR 0x09 \<or> ch = CHR 0x0A \<or> ch = CHR 0x0B \<or> ch = CHR 0x0C \<or> ch = CHR 0x0D \<or>
     ch = CHR 0x20 \<or> ch = CHR 0xA0"

definition trim :: "string \<Rightarrow> string" where
  "trim s = rev (dropWhile isSpace (rev (dropWhile isSpace s)))"

definition toLowerCaseChar :: "char \<Rightarrow> char" where
  "toLowerCaseChar ch =
     (let n = (of_char ch :: nat) in
      if (65 \<le> n \<and> n \<le> 90) \<or> (192 \<le> n \<and> n \<le> 222 \<and> n \<noteq> 215)
      then char_of (n + 32) else ch)"

definition toLowerCase :: "string \<Rightarrow> string" where
  "toLowerCase s = map toLowerCaseChar s"

definition startsWith :: "string \<Rightarrow> string \<Rightarrow> bool" where
  "startsWith p s \<longleftrightarrow> take (length p) s = p"

text \<open>\<open>Array.prototype.join\<close> with a separator.\<close>

fun join :: "string \<Rightarrow> string list \<Rightarrow> string" where
  "join sep [] = []"
| "join sep [x] = x"
| "join sep (x # y # ys) = x @ sep @ join sep (y # ys)"

text \<open>\<open>String.prototype.split\<close> on a single character: \<open>cur\<close> is the piece being read.\<close>

fun splitOn :: "char \<Rightarrow> string \<Rightarrow> string \<Rightarrow> string list" where
  "splitOn d cur [] = [cur]"
| "splitOn d cur (ch # cs) =
     (if ch = d then cur # splitOn d [] cs else splitOn d (cur @ [ch]) cs)"

section \<open>Segmenter\<close>

text \<open>
  The loop of \<open>splitShellSegments\<close>, with its four variables \<open>segments\<close>, \<open>current\<close>,
  \<open>quote\<close> and \<open>escaped\<close> as arguments.
\<close>

definition pushSegment :: "string list \<Rightarrow> string \<Rightarrow> string list" where
  "pushSegment segments current =
     (if trim current \<noteq> [] then segments @ [trim current] else segments)"

fun splitLoop :: "string \<Rightarrow> string list \<Rightarrow> string \<Rightarrow> char option \<Rightarrow> bool \<Rightarrow> string list" where
  "splitLoop [] segments current quote escaped = pushSegment segments current"
| "splitLoop (ch # cs) segments current quote escaped =
     (if escaped then splitLoop cs segments (current @ [ch]) quote False
      else if ch = CHR 0x5C then splitLoop cs segments (current @ [ch]) quote True
      else if quote \<noteq> None then
        splitLoop cs segments (current @ [ch]) (if Some ch = quote then None else quote) False
      else if ch = CHR 0x22 \<or> ch = CHR 0x27 then
        splitLoop cs segments (current @ [ch]) (Some ch) False
      else if ch = CHR '';'' \<or> ch = CHR ''|'' \<or> ch = CHR ''&'' \<or> ch = CHR 0x0A then
        splitLoop cs (pushSegment segments current) [] quote False
      else splitLoop cs segments (current @ [ch]) quote False)"

definition splitShellSegments :: "string \<Rightarrow> string list" where
  "splitShellSegments command = splitLoop command [] [] None False"

section \<open>Tokenizer\<close>

fun tokenizeLoop :: "string \<Rightarrow> string list \<Rightarrow> string \<Rightarrow> char option \<Rightarrow> bool \<Rightarrow> string list" where
  "tokenizeLoop [] toks current quote escaped =
     (if current \<noteq> [] then toks @ [current] else toks)"
| "tokenizeLoop (ch # cs) toks current quote escaped =
     (if escaped then tokenizeLoop cs toks (current @ [ch]) quote False
      else if ch = CHR 0x5C \<and> quote \<noteq> Some (CHR 0x27) then tokenizeLoop cs toks current quote True
      else if quote \<noteq> None then
        (if Some ch = quote then tokenizeLoop cs toks current None False
         else tokenizeLoop cs toks (current @ [ch]) quote False)
      else if ch = CHR 0x22 \<or> ch = CHR 0x27 then tokenizeLoop cs toks current (Some ch) False
      else if isSpace ch then
        (if current \<noteq> [] then tokenizeLoop cs (toks @ [current]) [] quote False
         else tokenizeLoop cs toks current quote False)
      else tokenizeLoop cs toks (current @ [ch]) quote False)"

definition tokenizeShellWords :: "string \<Rightarrow> string list" where
  "tokenizeShellWords segment = tokenizeLoop segment [] [] None False"

section \<open>Invocation normalizer\<close>

definition isIdentStart :: "char \<Rightarrow> bool" where
  "isIdentStart ch \<longleftrightarrow>
     (CHR ''A'' \<le> ch \<and> ch \<le> CHR ''Z'') \<or> (CHR ''a'' \<le> ch \<and> ch \<le> CHR ''z'') \<or> ch = CHR ''_''"

definition isIdentChar :: "char \<Rightarrow> bool" where
  "isIdentChar ch \<longleftrightarrow> isIdentStart ch \<or> (CHR ''0'' \<le> ch \<and> ch \<le> CHR ''9'')"

text \<open>The regular expression \<open>/^[A-Za-z_][A-Za-z0-9_]*=.*/\<close>.\<close>

definition isEnvAssignment :: "string \<Rightarrow> bool" where
  "isEnvAssignment token =
     (case token of
        [] \<Rightarrow> False
      | ch # cs \<Rightarrow> isIdentStart ch \<and>
          (case dropWhile isIdentChar cs of [] \<Rightarrow> False | e # _ \<Rightarrow> e = CHR ''=''))"

definition isQuoteChar :: "char \<Rightarrow> bool" where
  "isQuoteChar ch \<longleftrightarrow> ch = CHR 0x27 \<or> ch = CHR 0x22"

definition isParenChar :: "char \<Rightarrow> bool" where
  "isParenChar ch \<longleftrightarrow> ch = CHR ''('' \<or> ch = CHR '')''"

text \<open>\<open>replace(/\.exe$/i, "")\<close>.\<close>

definition stripExe :: "string \<Rightarrow> string" where
  "stripExe s =
     (if 4 \<le> length s \<and> toLowerCase (drop (length s - 4) s) = ''.exe''
      then take (length s - 4) s else s)"

definition normalizeCommandName :: "string \<Rightarrow> string" where
  "normalizeCommandName raw =
     (let trimmed = rev (dropWhile isQuoteChar (rev (dropWhile isQuoteChar (trim raw))));
          noParens = rev (dropWhile isParenChar (rev (dropWhile isParenChar trimmed)));
          parts = filter (\<lambda>p. p \<noteq> []) (splitOn CHR ''/'' [] noParens);
          base = (if parts = [] then noParens else last parts)
      in toLowerCase (stripExe base))"

definition SUDO_OPTIONS_WITH_VALUE :: "string list" where
  "SUDO_OPTIONS_WITH_VALUE =
     [''-u'', ''--user'', ''-g'', ''--group'', ''-h'', ''--host'', ''-p'', ''--prompt'',
      ''-r'', ''--role'', ''-t'', ''--type'', ''-c'', ''--close-from'']"

text \<open>
  In the three loops below and in \<open>normalizeInvocationTokens\<close> the argument is the part
  of \<open>tokens\<close> from \<open>idx\<close> on; advancing \<open>idx\<close> drops tokens from its front.
\<close>

fun skipEnvArguments :: "string list \<Rightarrow> string list" where
  "skipEnvArguments [] = []"
| "skipEnvArguments (envToken # rest) =
     (if isEnvAssignment envToken then skipEnvArguments rest
      else if startsWith ''-'' envToken then
        (if envToken = ''-u'' \<or> envToken = ''--unset'' then skipEnvArguments (drop 1 rest)
         else skipEnvArguments rest)
      else envToken # rest)"

fun skipSudoOptions :: "string list \<Rightarrow> string list" where
  "skipSudoOptions [] = []"
| "skipSudoOptions (t # rest) =
     (if startsWith ''-'' t then
        (if normalizeCommandName t \<in> set SUDO_OPTIONS_WITH_VALUE
         then skipSudoOptions (drop 1 rest) else skipSudoOptions rest)
      else t # rest)"

lemma length_skipEnvArguments: "length (skipEnvArguments ts) \<le> length ts"
proof (induction ts rule: skipEnvArguments.induct)
  case 1
  show ?case by simp
next
  case (2 envToken rest)
  then show ?case by (auto intro: le_SucI order_trans [OF _ diff_le_self])
qed

lemma length_skipSudoOptions: "length (skipSudoOptions ts) \<le> length ts"
proof (induction ts rule: skipSudoOptions.induct)
  case 1
  show ?case by simp
next
  case (2 t rest)
  then show ?case by (auto intro: le_SucI order_trans [OF _ diff_le_self])
qed

function normalizeInvocationTokens :: "string list \<Rightarrow> string list" where
  "normalizeInvocationTokens toks =
     (case dropWhile isEnvAssignment toks of
        [] \<Rightarrow> []
      | t # rest \<Rightarrow>
          (if normalizeCommandName t = ''env''
           then normalizeInvocationTokens (skipEnvArguments rest)
           else if normalizeCommandName t = ''sudo''
           then normalizeInvocationTokens (skipSudoOptions rest)
           else if normalizeCommandName t = ''command'' \<or> normalizeCommandName t = ''nohup''
                   \<or> normalizeCommandName t = ''time''
           then normalizeInvocationTokens (dropWhile (startsWith ''-'') rest)
           else normalizeCommandName t # rest))"
  by pat_completeness auto

lemma length_after_dropWhile:
  "dropWhile P xs = t # rest \<Longrightarrow> length rest < length xs"
  using length_dropWhile_le [of P xs] by simp

termination normalizeInvocationTokens
proof (relation "measure length", goal_cases)
  case 1
  show ?case by simp
next
  case (2 toks t rest)
  then show ?case
    using length_skipEnvArguments [of rest] length_after_dropWhile [of isEnvAssignment toks t rest]
    by simp
next
  case (3 toks t rest)
  then show ?case
    using length_skipSudoOptions [of rest] length_after_dropWhile [of isEnvAssignment toks t rest]
    by simp
next
  case (4 toks t rest)
  then show ?case
    using length_dropWhile_le [of "startsWith ''-''" rest]
      length_after_dropWhile [of isEnvAssignment toks t rest]
    by simp
qed

declare normalizeInvocationTokens.simps [simp del]

section \<open>Rule compiler\<close>

record PrefixRule =
  prefix :: string
  tokens :: "string list"
  tokenCount :: int

record BlockedInvocation =
  invocation :: string
  matchedBlocks :: "string list"

text \<open>
  \<open>canonicalizePrefix\<close> returns \<open>undefined\<close> (here \<open>None\<close>) when nothing is left after
  normalization. Its callers test the result for truthiness, which the empty string fails
  too: \<open>truthy\<close> is that test.
\<close>

definition canonicalizePrefix :: "string \<Rightarrow> string option" where
  "canonicalizePrefix input =
     (let normalized = normalizeInvocationTokens (tokenizeShellWords (trim input))
      in if normalized = [] then None else Some (join '' '' normalized))"

definition truthy :: "string option \<Rightarrow> bool" where
  "truthy r \<longleftrightarrow> (case r of None \<Rightarrow> False | Some s \<Rightarrow> s \<noteq> [])"

text \<open>
  A \<open>Set<string>\<close> iterates in insertion order: it is a list without repetitions, with
  \<open>has\<close>, \<open>add\<close> and \<open>delete\<close> as below, and \<open>new Set(array)\<close> adds the elements in turn.
\<close>

definition setHas :: "string \<Rightarrow> string list \<Rightarrow> bool" where
  "setHas x xs \<longleftrightarrow> x \<in> set xs"

definition setAdd :: "string \<Rightarrow> string list \<Rightarrow> string list" where
  "setAdd x xs = (if x \<in> set xs then xs else xs @ [x])"

definition setDelete :: "string \<Rightarrow> string list \<Rightarrow> string list" where
  "setDelete x xs = removeAll x xs"

definition newSet :: "string list \<Rightarrow> string list" where
  "newSet xs = foldl (\<lambda>acc x. setAdd x acc) [] xs"

fun buildRules :: "string list \<Rightarrow> PrefixRule list" where
  "buildRules [] = []"
| "buildRules (p # prefixes) =
     (case canonicalizePrefix p of
        None \<Rightarrow> buildRules prefixes
      | Some canonical \<Rightarrow>
          (if canonical = [] then buildRules prefixes
           else \<lparr>prefix = canonical, tokens = tokenizeShellWords canonical,
                  tokenCount = int (length (tokenizeShellWords canonical))\<rparr>
                # buildRules prefixes))"

section \<open>Rule matcher\<close>

text \<open>The \<open>for\<close> loop of \<open>isPrefixMatch\<close>, from index \<open>i\<close>.\<close>

function matchFrom :: "nat \<Rightarrow> string list \<Rightarrow> string list \<Rightarrow> bool" where
  "matchFrom i invocationTokens ruleTokens =
     (if i < length ruleTokens then
        (if invocationTokens ! i \<noteq> ruleTokens ! i then False
         else matchFrom (i + 1) invocationTokens ruleTokens)
      else True)"
  by pat_completeness auto
termination
  by (relation "measure (\<lambda>(i, invocationTokens, ruleTokens). length ruleTokens - i)") auto

declare matchFrom.simps [simp del]

definition isPrefixMatch :: "string list \<Rightarrow> string list \<Rightarrow> bool" where
  "isPrefixMatch invocationTokens ruleTokens =
     (if length ruleTokens = 0 \<or> length ruleTokens > length invocationTokens then False
      else matchFrom 0 invocationTokens ruleTokens)"

definition matchingRules :: "string list \<Rightarrow> PrefixRule list \<Rightarrow> PrefixRule list" where
  "matchingRules invocationTokens rules =
     filter (\<lambda>rule. isPrefixMatch invocationTokens (tokens rule)) rules"

section \<open>Decision engine\<close>

definition maxTokenCount :: "PrefixRule list \<Rightarrow> int" where
  "maxTokenCount rules =
     (case map tokenCount rules of [] \<Rightarrow> - 1 | c # cs \<Rightarrow> fold max cs c)"

definition mostSpecificPrefixes :: "PrefixRule list \<Rightarrow> string list" where
  "mostSpecificPrefixes rules =
     (let longest = maxTokenCount rules
      in if longest < 0 then []
         else map prefix (filter (\<lambda>rule. tokenCount rule = longest) rules))"

datatype action = ActPermit | ActBlock | ActNone

record LayerDecision =
  act :: action
  decisionBlocks :: "string list"

definition decideLayer :: "PrefixRule list \<Rightarrow> PrefixRule list \<Rightarrow> LayerDecision" where
  "decideLayer permitMatches blockMatches =
     (let permitLen = maxTokenCount permitMatches;
          blockLen = maxTokenCount blockMatches
      in if permitLen < 0 \<and> blockLen < 0 then \<lparr>act = ActNone, decisionBlocks = []\<rparr>
         else if permitLen \<ge> blockLen then \<lparr>act = ActPermit, decisionBlocks = []\<rparr>
         else \<lparr>act = ActBlock, decisionBlocks = mostSpecificPrefixes blockMatches\<rparr>)"

definition isBlockedByPersistentRules :: "string \<Rightarrow> string list \<Rightarrow> string list \<Rightarrow> bool" where
  "isBlockedByPersistentRules p persistentBlockedPrefixes persistentPermitPrefixes =
     (let invocationTokens = tokenizeShellWords p;
          persistentDecision = decideLayer
            (matchingRules invocationTokens (buildRules persistentPermitPrefixes))
            (matchingRules invocationTokens (buildRules persistentBlockedPrefixes))
      in act persistentDecision = ActBlock)"

text \<open>
  The body of the \<open>for\<close> loop of \<open>findBlockedInvocations\<close>: it takes the four compiled rule
  lists, one segment and the list \<open>blocked\<close> so far, and returns \<open>blocked\<close> after the
  iteration.
\<close>

definition segmentStep ::
  "PrefixRule list \<Rightarrow> PrefixRule list \<Rightarrow> PrefixRule list \<Rightarrow> PrefixRule list \<Rightarrow>
   BlockedInvocation list \<Rightarrow> string \<Rightarrow> BlockedInvocation list" where
  "segmentStep sessionBlockRules sessionPermitRules persistentBlockRules persistentPermitRules
     blocked segment =
     (let invocationTokens = normalizeInvocationTokens (tokenizeShellWords segment)
      in if invocationTokens = [] then blocked
         else
           let inv = join '' '' invocationTokens;
               sessionDecision = decideLayer
                 (matchingRules invocationTokens sessionPermitRules)
                 (matchingRules invocationTokens sessionBlockRules)
           in if act sessionDecision = ActPermit then blocked
              else if act sessionDecision = ActBlock then
                blocked @ [\<lparr>invocation = inv, matchedBlocks = decisionBlocks sessionDecision\<rparr>]
              else
                let persistentDecision = decideLayer
                      (matchingRules invocationTokens persistentPermitRules)
                      (matchingRules invocationTokens persistentBlockRules)
                in if act persistentDecision = ActBlock then
                     blocked @ [\<lparr>invocation = inv,
                                  matchedBlocks = decisionBlocks persistentDecision\<rparr>]
                   else blocked)"

definition findBlockedInvocations ::
  "string \<Rightarrow> string list \<Rightarrow> string list \<Rightarrow> string list \<Rightarrow> string list \<Rightarrow>
   BlockedInvocation list" where
  "findBlockedInvocations input persistentBlockedPrefixes persistentPermitPrefixes
     sessionBlockedPrefixes sessionPermitPrefixes =
     foldl (segmentStep (buildRules sessionBlockedPrefixes) (buildRules sessionPermitPrefixes)
              (buildRules persistentBlockedPrefixes) (buildRules persistentPermitPrefixes))
       [] (splitShellSegments input)"

section \<open>Messages\<close>

datatype NotifyLevel = Info | Warning | Error

type_synonym notification = "string \<times> NotifyLevel"


definition formatBlockedInvocations :: "BlockedInvocation list \<Rightarrow> string" where
  "formatBlockedInvocations blocked =
     join ''; '' (map (\<lambda>entry. invocation entry @ '' (matched: ''
                          @ join '' | '' (matchedBlocks entry) @ '')'') blocked)"

definition blockedMessage :: "BlockedInvocation list \<Rightarrow> string" where
  "blockedMessage blocked =
     ''Blocked bash invocation(s): '' @ formatBlockedInvocations blocked
       @ ''. Use /bash-guard-permit <prefix> to allow in this session.''"

definition usageText :: string where
  "usageText = ''Commands: /bash-guard-block <prefix>, /bash-guard-permit <prefix>, /bash-guard-block-persist <prefix>, /bash-guard-permit-persist <prefix>, /bash-guard-reset, /bash-guard-status''"




section \<open>Persisted configuration\<close>

text \<open>
  What \<open>loadPersistedGuardConfig\<close> can find at the configuration path. \<open>Missing\<close>: no file.
  \<open>Unreadable m\<close>: \<open>readFileSync\<close> or \<open>JSON.parse\<close> throws with message \<open>m\<close>.
  \<open>Parsed b p\<close>: the file parses; \<open>b\<close> is \<open>Some xs\<close> when the parsed value has an array
  \<open>xs\<close> as its property \<open>blockedPrefixes\<close> and \<open>None\<close> otherwise, likewise \<open>p\<close> for
  \<open>permittedPrefixes\<close>. An array element is a string, \<open>null\<close>, or some other JSON value
  (a number, a boolean, an array, an object); on the last two \<open>canonicalizePrefix\<close> throws
  a TypeError at \<open>input.trim()\<close>, with the message \<open>nullTypeErrorMessage\<close> for \<open>null\<close>
  and \<open>typeErrorMessage\<close> for the others.
\<close>

datatype jsonElement = JString string | JNull | JOther

datatype configFile =
    Missing
  | Unreadable string
  | Parsed "jsonElement list option" "jsonElement list option"

record LoadedConfig =
  blockedPrefixes :: "string list"
  permittedPrefixes :: "string list"
  existed :: bool
  loadError :: "string option"

definition DEFAULT_BLOCKED_PREFIXES :: "string list" where
  "DEFAULT_BLOCKED_PREFIXES = [''gcloud'', ''kubectl'']"

definition typeErrorMessage :: string where
  "typeErrorMessage = ''input.trim is not a function''"

definition nullTypeErrorMessage :: string where
  "nullTypeErrorMessage =
     ''Cannot read properties of null (reading '' @ [CHR 0x27] @ ''trim'' @ [CHR 0x27] @ '')''"

text \<open>\<open>.map((prefix) => canonicalizePrefix(prefix))\<close>: \<open>Inl\<close> is the exception thrown.\<close>

fun canonicalizeEach :: "jsonElement list \<Rightarrow> string + string option list" where
  "canonicalizeEach [] = Inr []"
| "canonicalizeEach (JNull # xs) = Inl nullTypeErrorMessage"
| "canonicalizeEach (JOther # xs) = Inl typeErrorMessage"
| "canonicalizeEach (JString s # xs) =
     (case canonicalizeEach xs of
        Inl e \<Rightarrow> Inl e
      | Inr rs \<Rightarrow> Inr (canonicalizePrefix s # rs))"

text \<open>\<open>.filter(Boolean)\<close> on the results of \<open>canonicalizePrefix\<close>.\<close>

definition filterBoolean :: "string option list \<Rightarrow> string list" where
  "filterBoolean rs = map the (filter truthy rs)"

definition canonicalSet :: "jsonElement list \<Rightarrow> string + string list" where
  "canonicalSet xs =
     (case canonicalizeEach xs of
        Inl e \<Rightarrow> Inl e
      | Inr rs \<Rightarrow> Inr (newSet (filterBoolean rs)))"

definition defaultBlocked :: "string list" where
  "defaultBlocked = newSet (filterBoolean (map canonicalizePrefix DEFAULT_BLOCKED_PREFIXES))"

definition loadPersistedGuardConfig :: "configFile \<Rightarrow> LoadedConfig" where
  "loadPersistedGuardConfig file =
     (case file of
        Missing \<Rightarrow>
          \<lparr>blockedPrefixes = defaultBlocked, permittedPrefixes = [], existed = False,
            loadError = None\<rparr>
      | Unreadable m \<Rightarrow>
          \<lparr>blockedPrefixes = defaultBlocked, permittedPrefixes = [], existed = True,
            loadError = Some m\<rparr>
      | Parsed blockedSource permittedSource \<Rightarrow>
          (case canonicalSet
                  (case blockedSource of
                     Some xs \<Rightarrow> xs
                   | None \<Rightarrow> (if permittedSource \<noteq> None then []
                               else map JString DEFAULT_BLOCKED_PREFIXES)) of
             Inl m \<Rightarrow>
               \<lparr>blockedPrefixes = defaultBlocked, permittedPrefixes = [], existed = True,
                 loadError = Some m\<rparr>
           | Inr blockedSet \<Rightarrow>
               (case canonicalSet (case permittedSource of Some ys \<Rightarrow> ys | None \<Rightarrow> []) of
                  Inl m \<Rightarrow>
                    \<lparr>blockedPrefixes = defaultBlocked, permittedPrefixes = [], existed = True,
                      loadError = Some m\<rparr>
                | Inr permittedSet \<Rightarrow>
                    \<lparr>blockedPrefixes = blockedSet, permittedPrefixes = permittedSet,
                      existed = True, loadError = None\<rparr>)))"

section \<open>The four rule sets and the policy commands\<close>

record GuardState =
  persistentBlockedPrefixes :: "string list"
  persistentPermitPrefixes :: "string list"
  sessionBlockedPrefixes :: "string list"
  sessionPermitPrefixes :: "string list"

definition initialState :: GuardState where
  "initialState =
     \<lparr>persistentBlockedPrefixes = [], persistentPermitPrefixes = [],
      sessionBlockedPrefixes = [], sessionPermitPrefixes = []\<rparr>"

text \<open>
  \<open>savePersistedGuardConfig\<close> belongs to the storage: it is a parameter \<open>save\<close> of the
  handlers, which returns \<open>None\<close> when the write succeeds and \<open>Some m\<close> when it throws with
  message \<open>m\<close>. A handler returns the state after it and the notifications it sent;
  \<open>ctx.ui.notify\<close> itself is taken not to throw.
\<close>

type_synonym saver = "string list \<Rightarrow> string list \<Rightarrow> string option"

definition argsOrEmpty :: "string option \<Rightarrow> string" where
  "argsOrEmpty args = (case args of None \<Rightarrow> [] | Some a \<Rightarrow> a)"

definition usageReply :: "string \<Rightarrow> notification list" where
  "usageReply name = [(''Usage: /'' @ name @ '' <prefix>'', Warning), (usageText, Info)]"

definition blockPersistMessage :: "string \<Rightarrow> bool \<Rightarrow> bool \<Rightarrow> bool \<Rightarrow> string" where
  "blockPersistMessage p wasBlocked removedPermit coveredByExistingBlock =
     (if wasBlocked \<and> \<not> removedPermit then ''Already persistently blocked: '' @ p
      else if removedPermit \<and> coveredByExistingBlock then
        ''Removed persistent permit: '' @ p
          @ ''. Existing persistent block prefixes already cover it, so no redundant block rule was added.''
      else if removedPermit \<and> wasBlocked then
        ''Persistently blocked: '' @ p @ '' (removed persistent permit for same prefix).''
      else if removedPermit then
        ''Persistently blocked: '' @ p @ '' (removed persistent permit for same prefix).''
      else ''Persistently blocked: '' @ p)"

definition blockPersist :: "saver \<Rightarrow> string option \<Rightarrow> GuardState \<Rightarrow> GuardState \<times> notification list" where
  "blockPersist save args st =
     (case canonicalizePrefix (argsOrEmpty args) of
        None \<Rightarrow> (st, usageReply ''bash-guard-block-persist'')
      | Some p \<Rightarrow>
          (if p = [] then (st, usageReply ''bash-guard-block-persist'')
          else
            let wasBlocked = setHas p (persistentBlockedPrefixes st);
                removedPermit = setHas p (persistentPermitPrefixes st);
                permits = setDelete p (persistentPermitPrefixes st);
                coveredByExistingBlock =
                  (removedPermit \<and> \<not> wasBlocked \<and>
                   isBlockedByPersistentRules p (persistentBlockedPrefixes st) permits);
                addedBlock = (\<not> wasBlocked \<and> \<not> coveredByExistingBlock);
                blocks = (if addedBlock then setAdd p (persistentBlockedPrefixes st)
                          else persistentBlockedPrefixes st)
            in (case save blocks permits of
                 None \<Rightarrow>
                   (st\<lparr>persistentBlockedPrefixes := blocks, persistentPermitPrefixes := permits\<rparr>,
                    [(blockPersistMessage p wasBlocked removedPermit coveredByExistingBlock, Info)])
               | Some m \<Rightarrow>
                   (st\<lparr>persistentBlockedPrefixes :=
                         (if addedBlock then setDelete p blocks else blocks),
                       persistentPermitPrefixes :=
                         (if removedPermit then setAdd p permits else permits)\<rparr>,
                    [(''Failed to persist guard config: '' @ m, Error)]))))"

definition permitPersistMessage :: "string \<Rightarrow> bool \<Rightarrow> bool \<Rightarrow> string" where
  "permitPersistMessage p wasPermitted removedBlock =
     (if wasPermitted \<and> \<not> removedBlock then ''Already persistently permitted: '' @ p
      else if removedBlock then
        ''Persistently permitted: '' @ p @ '' (removed persistent block for same prefix).''
      else ''Persistently permitted: '' @ p)"

definition permitPersist :: "saver \<Rightarrow> string option \<Rightarrow> GuardState \<Rightarrow> GuardState \<times> notification list" where
  "permitPersist save args st =
     (case canonicalizePrefix (argsOrEmpty args) of
        None \<Rightarrow> (st, usageReply ''bash-guard-permit-persist'')
      | Some p \<Rightarrow>
          (if p = [] then (st, usageReply ''bash-guard-permit-persist'')
          else
            let wasPermitted = setHas p (persistentPermitPrefixes st);
                removedBlock = setHas p (persistentBlockedPrefixes st);
                blocks = setDelete p (persistentBlockedPrefixes st);
                permits = setAdd p (persistentPermitPrefixes st)
            in (case save blocks permits of
                 None \<Rightarrow>
                   (st\<lparr>persistentBlockedPrefixes := blocks, persistentPermitPrefixes := permits\<rparr>,
                    [(permitPersistMessage p wasPermitted removedBlock, Info)])
               | Some m \<Rightarrow>
                   (st\<lparr>persistentBlockedPrefixes :=
                         (if removedBlock then setAdd p blocks else blocks),
                       persistentPermitPrefixes :=
                         (if \<not> wasPermitted then setDelete p permits else permits)\<rparr>,
                    [(''Failed to persist guard config: '' @ m, Error)]))))"

definition blockSession :: "string option \<Rightarrow> GuardState \<Rightarrow> GuardState \<times> notification list" where
  "blockSession args st =
     (case canonicalizePrefix (argsOrEmpty args) of
        None \<Rightarrow> (st, usageReply ''bash-guard-block'')
      | Some p \<Rightarrow>
          (if p = [] then (st, usageReply ''bash-guard-block'')
          else
            (st\<lparr>sessionPermitPrefixes := setDelete p (sessionPermitPrefixes st),
                sessionBlockedPrefixes := setAdd p (sessionBlockedPrefixes st)\<rparr>,
             [(''Blocked for this session: '' @ p, Info)])))"





datatype command =
    BlockPersist "string option"
  | PermitPersist "string option"
  | BlockSession "string option"
  | PermitSession "string option"
  | ResetSession
  | Status


section \<open>Evaluation entry points\<close>

text \<open>
  The \<open>tool_call\<close> handler returns \<open>None\<close> for \<open>undefined\<close> and the reason when it blocks;
  \<open>command\<close> is \<open>None\<close> when \<open>event.input.command\<close> is not a string.
\<close>

definition toolCall :: "string \<Rightarrow> string option \<Rightarrow> GuardState \<Rightarrow> string option" where
  "toolCall toolName command st =
     (if toolName \<noteq> ''bash'' then None
      else
        let cmd = (case command of None \<Rightarrow> [] | Some c \<Rightarrow> c)
        in if cmd = [] then None
           else
             let blocked = findBlockedInvocations cmd
                   (persistentBlockedPrefixes st) (persistentPermitPrefixes st)
                   (sessionBlockedPrefixes st) (sessionPermitPrefixes st)
             in if blocked = [] then None else Some (blockedMessage blocked))"

record BashResult =
  resultOutput :: string
  exitCode :: int
  cancelled :: bool
  truncated :: bool

definition userBash :: "string \<Rightarrow> GuardState \<Rightarrow> BashResult option \<times> notification list" where
  "userBash command st =
     (let blocked = findBlockedInvocations command
            (persistentBlockedPrefixes st) (persistentPermitPrefixes st)
            (sessionBlockedPrefixes st) (sessionPermitPrefixes st)
      in if blocked = [] then (None, [])
         else (Some \<lparr>resultOutput = blockedMessage blocked, exitCode = 1, cancelled = False,
                      truncated = False\<rparr>,
               [(blockedMessage blocked, Warning)]))"

section \<open>The specification's notions\<close>

text \<open>
  The largest token count of a list of rules, or \<open>-1\<close> for the empty list, in the words of
  the specification; \<open>maxTokenCount\<close> above is the code's.
\<close>

definition specMax :: "PrefixRule list \<Rightarrow> int" where
  "specMax rules = (if rules = [] then - 1 else Max (tokenCount ` set rules))"

text \<open>
  Per-segment resolution in the words of the specification: the record reported for a
  segment, or \<open>None\<close> when the segment is allowed.
\<close>

definition segmentRecord ::
  "PrefixRule list \<Rightarrow> PrefixRule list \<Rightarrow> PrefixRule list \<Rightarrow> PrefixRule list \<Rightarrow>
   string \<Rightarrow> BlockedInvocation option" where
  "segmentRecord sessionBlockRules sessionPermitRules persistentBlockRules persistentPermitRules
     segment =
     (let toks = normalizeInvocationTokens (tokenizeShellWords segment)
      in if toks = [] then None
         else
           (case act (decideLayer (matchingRules toks sessionPermitRules)
                        (matchingRules toks sessionBlockRules)) of
              ActPermit \<Rightarrow> None
            | ActBlock \<Rightarrow>
                Some \<lparr>invocation = join '' '' toks,
                      matchedBlocks = decisionBlocks
                        (decideLayer (matchingRules toks sessionPermitRules)
                           (matchingRules toks sessionBlockRules))\<rparr>
            | ActNone \<Rightarrow>
                (case act (decideLayer (matchingRules toks persistentPermitRules)
                             (matchingRules toks persistentBlockRules)) of
                   ActBlock \<Rightarrow>
                     Some \<lparr>invocation = join '' '' toks,
                           matchedBlocks = decisionBlocks
                             (decideLayer (matchingRules toks persistentPermitRules)
                                (matchingRules toks persistentBlockRules))\<rparr>
                 | ActPermit \<Rightarrow> None
                 | ActNone \<Rightarrow> None)))"

text \<open>Two rule-set states hold the same four sets.\<close>

definition sameRuleSets :: "GuardState \<Rightarrow> GuardState \<Rightarrow> bool" where
  "sameRuleSets st st' \<longleftrightarrow>
     set (persistentBlockedPrefixes st') = set (persistentBlockedPrefixes st)
     \<and> set (persistentPermitPrefixes st') = set (persistentPermitPrefixes st)
     \<and> set (sessionBlockedPrefixes st') = set (sessionBlockedPrefixes st)
     \<and> set (sessionPermitPrefixes st') = set (sessionPermitPrefixes st)"


text \<open>A stored array all of whose elements are strings, and those strings.\<close>

fun stringsOf :: "jsonElement list \<Rightarrow> string list option" where
  "stringsOf [] = Some []"
| "stringsOf (JNull # xs) = None"
| "stringsOf (JOther # xs) = None"
| "stringsOf (JString s # xs) =
     (case stringsOf xs of None \<Rightarrow> None | Some ss \<Rightarrow> Some (s # ss))"

text \<open>A storage whose writes all succeed, and one whose writes all fail with message \<open>m\<close>.\<close>

definition storageOk :: saver where
  "storageOk blocks permits = None"

definition storageFails :: "string \<Rightarrow> saver" where
  "storageFails m blocks permits = Some m"

text \<open>A list of notifications holds one of level \<open>Error\<close>.\<close>

definition reportsError :: "notification list \<Rightarrow> bool" where
  "reportsError notes \<longleftrightarrow> Error \<in> snd ` set notes"

text \<open>
  A token without whitespace, quote characters and backslashes, and not empty: the
  tokenizer reads it back as it is.
\<close>

definition plainChar :: "char \<Rightarrow> bool" where
  "plainChar ch \<longleftrightarrow> \<not> isSpace ch \<and> ch \<noteq> CHR 0x5C \<and> ch \<noteq> CHR 0x22 \<and> ch \<noteq> CHR 0x27"

definition plainToken :: "string \<Rightarrow> bool" where
  "plainToken t \<longleftrightarrow> t \<noteq> [] \<and> (\<forall>ch \<in> set t. plainChar ch)"

section \<open>Verified properties\<close>

subsection \<open>Rule matcher\<close>

lemma matchFrom_iff:
  "matchFrom i ivk r \<longleftrightarrow> (\<forall>j. i \<le> j \<and> j < length r \<longrightarrow> ivk ! j = r ! j)"
proof (induction i ivk r rule: matchFrom.induct)
  case (1 i ivk r)
  show ?case
  proof (cases "i < length r")
    case False
    then show ?thesis by (subst matchFrom.simps) auto
  next
    case True
    show ?thesis
    proof (cases "ivk ! i = r ! i")
      case False
      with True show ?thesis by (subst matchFrom.simps) auto
    next
      case same: True
      have "matchFrom i ivk r = matchFrom (i + 1) ivk r"
        using True same by (subst matchFrom.simps) simp
      also have "\<dots> \<longleftrightarrow> (\<forall>j. i + 1 \<le> j \<and> j < length r \<longrightarrow> ivk ! j = r ! j)"
        using "1.IH" True same by simp
      also have "\<dots> \<longleftrightarrow> (\<forall>j. i \<le> j \<and> j < length r \<longrightarrow> ivk ! j = r ! j)"
      proof (intro iffI allI impI)
        fix j assume h: "\<forall>j. i + 1 \<le> j \<and> j < length r \<longrightarrow> ivk ! j = r ! j" and j: "i \<le> j \<and> j < length r"
        show "ivk ! j = r ! j"
        proof (cases "j = i")
          case True
          then show ?thesis using same by simp
        next
          case False
          then have "i + 1 \<le> j" using j by simp
          then show ?thesis using h j by blast
        qed
      next
        fix j assume h: "\<forall>j. i \<le> j \<and> j < length r \<longrightarrow> ivk ! j = r ! j" and j: "i + 1 \<le> j \<and> j < length r"
        then show "ivk ! j = r ! j" by simp
      qed
      finally show ?thesis .
    qed
  qed
qed

lemma isPrefixMatch_iff_take:
  "isPrefixMatch ivk r \<longleftrightarrow> r \<noteq> [] \<and> length r \<le> length ivk \<and> take (length r) ivk = r"
proof (cases "r = [] \<or> length r > length ivk")
  case True
  then show ?thesis by (auto simp: isPrefixMatch_def)
next
  case False
  then have "isPrefixMatch ivk r \<longleftrightarrow> (\<forall>j < length r. ivk ! j = r ! j)"
    by (simp add: isPrefixMatch_def matchFrom_iff)
  also have "\<dots> \<longleftrightarrow> take (length r) ivk = r"
  proof
    assume "\<forall>j < length r. ivk ! j = r ! j"
    then show "take (length r) ivk = r"
      using False by (intro nth_equalityI) simp_all
  next
    assume eq: "take (length r) ivk = r"
    show "\<forall>j < length r. ivk ! j = r ! j"
    proof (intro allI impI)
      fix j assume "j < length r"
      then have "take (length r) ivk ! j = ivk ! j" by simp
      then show "ivk ! j = r ! j" using eq by simp
    qed
  qed
  finally show ?thesis using False by auto
qed

text \<open>
  The rules that \<open>buildRules\<close> compiles have the number of their tokens as token count,
  and those that match an invocation have a positive one: the hypotheses of the two
  theorems that follow hold of every rule the decision engine is given.
\<close>

lemma buildRules_tokenCount:
  "r \<in> set (buildRules ps) \<Longrightarrow> tokenCount r = int (length (tokens r))"
  by (induction ps) (auto split: option.splits if_splits)

lemma matching_compiled_rules_positive:
  "r \<in> set (matchingRules toks (buildRules ps)) \<Longrightarrow> 0 < tokenCount r"
  using buildRules_tokenCount [of r ps]
  by (auto simp: matchingRules_def isPrefixMatch_iff_take)

text \<open>
  Claim C5. A rule whose \<open>tokenCount\<close> is the length of its \<open>tokens\<close> (as \<open>buildRules\<close>
  makes it) matches an invocation exactly when the count is positive, at most the number of
  invocation tokens, and the rule's tokens are the first \<open>tokenCount\<close> invocation tokens;
  a match stays a match when further tokens are appended to the invocation.
\<close>

theorem isPrefixMatch_positional_prefix:
  assumes "tokenCount R = int (length (tokens R))"
  shows "(isPrefixMatch I (tokens R) \<longleftrightarrow>
            0 < tokenCount R \<and> tokenCount R \<le> int (length I)
            \<and> tokens R = take (nat (tokenCount R)) I)
         \<and> (isPrefixMatch I (tokens R) \<longrightarrow> isPrefixMatch (I @ extra) (tokens R))"
  using assms by (auto simp: isPrefixMatch_iff_take)

theorem isPrefixMatch_positional_prefix_witness:
  "isPrefixMatch [''kubectl'', ''get'', ''pods''] [''kubectl'', ''get'']
   \<and> isPrefixMatch ([''kubectl'', ''get'', ''pods''] @ [''-A'']) [''kubectl'', ''get'']"
  using isPrefixMatch_positional_prefix
    [of "\<lparr>prefix = ''kubectl get'', tokens = [''kubectl'', ''get''], tokenCount = 2\<rparr>"
        "[''kubectl'', ''get'', ''pods'']" "[''-A'']"]
  by simp

subsection \<open>Layer decision\<close>

lemma fold_max_eq_Max: "fold max cs (c::int) = Max (set (c # cs))"
  by (rule Max.set_eq_fold [symmetric])

lemma maxTokenCount_specMax: "maxTokenCount rules = specMax rules"
proof (cases rules)
  case Nil
  then show ?thesis by (simp add: maxTokenCount_def specMax_def)
next
  case (Cons a list)
  have "fold max (map tokenCount list) (tokenCount a) = Max (set (tokenCount a # map tokenCount list))"
    by (rule fold_max_eq_Max)
  then show ?thesis using Cons by (simp add: maxTokenCount_def specMax_def)
qed

lemma specMax_nonneg:
  "rules \<noteq> [] \<Longrightarrow> \<forall>r \<in> set rules. 0 \<le> tokenCount r \<Longrightarrow> 0 \<le> specMax rules"
  by (cases rules) (auto simp: specMax_def intro: Max_ge_iff [THEN iffD2])

text \<open>
  Claim C3. For matching rules (token counts are not negative), with \<open>specMax\<close> the largest
  token count or \<open>-1\<close> when there is none: the verdict is none iff both maxima are \<open>-1\<close>;
  it is permit iff not both are \<open>-1\<close> and the permit maximum is at least the block maximum,
  so a tie is a permit; it is block otherwise, and then the reported prefixes are those of
  all block matches whose token count is the block maximum.
\<close>

theorem decideLayer_verdict:
  assumes "\<forall>r \<in> set permitMatches \<union> set blockMatches. 0 \<le> tokenCount r"
  shows "(act (decideLayer permitMatches blockMatches) = ActNone
            \<longleftrightarrow> specMax permitMatches = - 1 \<and> specMax blockMatches = - 1)
       \<and> (act (decideLayer permitMatches blockMatches) = ActPermit
            \<longleftrightarrow> \<not> (specMax permitMatches = - 1 \<and> specMax blockMatches = - 1)
                \<and> specMax permitMatches \<ge> specMax blockMatches)
       \<and> (act (decideLayer permitMatches blockMatches) = ActBlock
            \<longleftrightarrow> specMax permitMatches < specMax blockMatches)
       \<and> decisionBlocks (decideLayer permitMatches blockMatches) =
           (if act (decideLayer permitMatches blockMatches) = ActBlock
            then map prefix (filter (\<lambda>r. tokenCount r = specMax blockMatches) blockMatches)
            else [])"
proof -
  have p: "specMax permitMatches = - 1 \<or> 0 \<le> specMax permitMatches"
    using assms specMax_nonneg [of permitMatches] by (auto simp: specMax_def)
  have b: "specMax blockMatches = - 1 \<or> 0 \<le> specMax blockMatches"
    using assms specMax_nonneg [of blockMatches] by (auto simp: specMax_def)
  show ?thesis
    using p b
    by (auto simp: decideLayer_def maxTokenCount_specMax mostSpecificPrefixes_def Let_def)
qed

theorem decideLayer_verdict_witness:
  "act (decideLayer [\<lparr>prefix = ''kubectl get'', tokens = [''kubectl'', ''get''], tokenCount = 2\<rparr>]
          [\<lparr>prefix = ''kubectl get'', tokens = [''kubectl'', ''get''], tokenCount = 2\<rparr>])
     = ActPermit
   \<and> decisionBlocks
        (decideLayer [\<lparr>prefix = ''kubectl get'', tokens = [''kubectl'', ''get''], tokenCount = 2\<rparr>]
          [\<lparr>prefix = ''kubectl get'', tokens = [''kubectl'', ''get''], tokenCount = 2\<rparr>]) = []"
  using decideLayer_verdict
    [of "[\<lparr>prefix = ''kubectl get'', tokens = [''kubectl'', ''get''], tokenCount = 2\<rparr>]"
        "[\<lparr>prefix = ''kubectl get'', tokens = [''kubectl'', ''get''], tokenCount = 2\<rparr>]"]
  by (simp add: specMax_def)

subsection \<open>Layer precedence\<close>

lemma matchingRules_no_tokens: "matchingRules [] rules = []"
  by (simp add: matchingRules_def isPrefixMatch_def)

lemma decideLayer_no_matches: "decideLayer [] [] = \<lparr>act = ActNone, decisionBlocks = []\<rparr>"
  by (simp add: decideLayer_def maxTokenCount_def)

text \<open>
  Claim C2. The session layer decides first. When its verdict is permit the segment adds
  nothing to the blocked list whatever the persistent rules are; when it is block the
  segment is reported with the session layer's matched blocks, again whatever the persistent
  rules are; only when it is none does the persistent layer decide, and then only a
  persistent block reports the segment, with the persistent layer's matched blocks.
\<close>

theorem layer_precedence:
  "(let toks = normalizeInvocationTokens (tokenizeShellWords seg);
        sessionDecision = decideLayer (matchingRules toks sessionPermitRules)
                            (matchingRules toks sessionBlockRules);
        persistentDecision = decideLayer (matchingRules toks persistentPermitRules)
                               (matchingRules toks persistentBlockRules)
    in (act sessionDecision = ActPermit \<longrightarrow>
          (\<forall>anyBlockRules anyPermitRules.
             segmentStep sessionBlockRules sessionPermitRules anyBlockRules anyPermitRules
               blocked seg = blocked))
     \<and> (act sessionDecision = ActBlock \<longrightarrow>
          (\<forall>anyBlockRules anyPermitRules.
             segmentStep sessionBlockRules sessionPermitRules anyBlockRules anyPermitRules
               blocked seg =
             blocked @ [\<lparr>invocation = join '' '' toks,
                          matchedBlocks = decisionBlocks sessionDecision\<rparr>]))
     \<and> (act sessionDecision = ActNone \<longrightarrow>
          segmentStep sessionBlockRules sessionPermitRules persistentBlockRules
            persistentPermitRules blocked seg =
          (if act persistentDecision = ActBlock
           then blocked @ [\<lparr>invocation = join '' '' toks,
                             matchedBlocks = decisionBlocks persistentDecision\<rparr>]
           else blocked)))"
proof (cases "normalizeInvocationTokens (tokenizeShellWords seg) = []")
  case True
  then show ?thesis
    by (simp add: Let_def segmentStep_def matchingRules_no_tokens decideLayer_no_matches)
next
  case False
  then show ?thesis
    by (simp add: Let_def segmentStep_def)
qed

lemma session_permit_example:
  "act (decideLayer
          (matchingRules (normalizeInvocationTokens (tokenizeShellWords ''kubectl get pods''))
             (buildRules [''kubectl'']))
          (matchingRules (normalizeInvocationTokens (tokenizeShellWords ''kubectl get pods''))
             (buildRules []))) = ActPermit"
  by code_simp

theorem layer_precedence_witness:
  "segmentStep (buildRules []) (buildRules [''kubectl'']) (buildRules [''kubectl get pods''])
     (buildRules []) [] ''kubectl get pods'' = []"
  using layer_precedence
    [of "''kubectl get pods''" "buildRules [''kubectl'']" "buildRules []" "buildRules []"
        "buildRules [''kubectl get pods'']" "[]"]
    session_permit_example
  unfolding Let_def by blast

subsection \<open>Whole-command resolution\<close>

lemma segmentStep_segmentRecord:
  "segmentStep sbr spr pbr ppr blocked seg =
     blocked @ (case segmentRecord sbr spr pbr ppr seg of None \<Rightarrow> [] | Some r \<Rightarrow> [r])"
  by (simp add: segmentStep_def segmentRecord_def Let_def split: action.splits)

lemma foldl_segmentStep:
  "foldl (segmentStep sbr spr pbr ppr) blocked segs =
     blocked @ List.map_filter (segmentRecord sbr spr pbr ppr) segs"
proof (induction segs arbitrary: blocked)
  case Nil
  show ?case by (simp add: List.map_filter_simps)
next
  case (Cons seg segs)
  have "foldl (segmentStep sbr spr pbr ppr) blocked (seg # segs) =
          foldl (segmentStep sbr spr pbr ppr) (segmentStep sbr spr pbr ppr blocked seg) segs"
    by simp
  also have "\<dots> = segmentStep sbr spr pbr ppr blocked seg
                 @ List.map_filter (segmentRecord sbr spr pbr ppr) segs"
    by (rule Cons.IH)
  also have "\<dots> = blocked @ List.map_filter (segmentRecord sbr spr pbr ppr) (seg # segs)"
    by (simp add: segmentStep_segmentRecord List.map_filter_simps split: option.splits)
  finally show ?case .
qed

lemma map_filter_nonempty:
  "List.map_filter f xs \<noteq> [] \<longleftrightarrow> (\<exists>x \<in> set xs. f x \<noteq> None)"
  by (induction xs) (auto simp: List.map_filter_simps split: option.splits)

lemma gcloud_scenario:
  "findBlockedInvocations ''gcloud compute instances list; echo hi'' [''gcloud''] [] [] [] =
     [\<lparr>invocation = ''gcloud compute instances list'', matchedBlocks = [''gcloud'']\<rparr>]"
  by code_simp

lemma gcloud_scenario_segments:
  "List.map_filter (segmentRecord (buildRules []) (buildRules []) (buildRules [''gcloud'']) (buildRules []))
      [''gcloud compute instances list'', ''echo hi''] =
     [\<lparr>invocation = ''gcloud compute instances list'', matchedBlocks = [''gcloud'']\<rparr>]
   \<and> splitShellSegments ''gcloud compute instances list; echo hi'' = [''gcloud compute instances list'', ''echo hi'']
   \<and> segmentRecord (buildRules []) (buildRules []) (buildRules [''gcloud'']) (buildRules []) ''echo hi'' = None"
  by code_simp

text \<open>
  Claim C1. The list returned for a command holds, in order, one record for each segment
  that per-segment resolution blocks and nothing else; the command is blocked (by either
  entry point) iff some segment is blocked. With the persistent block \<open>gcloud\<close> the command
  \<open>gcloud compute instances list; echo hi\<close> gives the single record for
  \<open>gcloud compute instances list\<close> with matched block \<open>gcloud\<close>, and none for \<open>echo hi\<close>.
\<close>

theorem whole_command_resolution:
  "findBlockedInvocations input pb pp sb sp =
     List.map_filter
       (segmentRecord (buildRules sb) (buildRules sp) (buildRules pb) (buildRules pp))
       (splitShellSegments input)
   \<and> (findBlockedInvocations input pb pp sb sp \<noteq> [] \<longleftrightarrow>
        (\<exists>seg \<in> set (splitShellSegments input).
           segmentRecord (buildRules sb) (buildRules sp) (buildRules pb) (buildRules pp) seg
             \<noteq> None))
   \<and> (fst (userBash input
              \<lparr>persistentBlockedPrefixes = pb, persistentPermitPrefixes = pp,
               sessionBlockedPrefixes = sb, sessionPermitPrefixes = sp\<rparr>) \<noteq> None
        \<longleftrightarrow> findBlockedInvocations input pb pp sb sp \<noteq> [])
   \<and> (toolCall ''bash'' (Some input)
         \<lparr>persistentBlockedPrefixes = pb, persistentPermitPrefixes = pp,
          sessionBlockedPrefixes = sb, sessionPermitPrefixes = sp\<rparr> \<noteq> None
        \<longleftrightarrow> findBlockedInvocations input pb pp sb sp \<noteq> [])
   \<and> findBlockedInvocations ''gcloud compute instances list; echo hi'' [''gcloud''] [] [] [] =
       [\<lparr>invocation = ''gcloud compute instances list'', matchedBlocks = [''gcloud'']\<rparr>]
   \<and> segmentRecord (buildRules []) (buildRules []) (buildRules [''gcloud'']) (buildRules [])
        ''echo hi'' = None"
proof -
  have eq: "findBlockedInvocations input pb pp sb sp =
     List.map_filter
       (segmentRecord (buildRules sb) (buildRules sp) (buildRules pb) (buildRules pp))
       (splitShellSegments input)"
    by (simp add: findBlockedInvocations_def foldl_segmentStep)
  have ne: "findBlockedInvocations input pb pp sb sp \<noteq> [] \<longleftrightarrow>
        (\<exists>seg \<in> set (splitShellSegments input).
           segmentRecord (buildRules sb) (buildRules sp) (buildRules pb) (buildRules pp) seg
             \<noteq> None)"
    unfolding eq by (rule map_filter_nonempty)
  have ub: "fst (userBash input
              \<lparr>persistentBlockedPrefixes = pb, persistentPermitPrefixes = pp,
               sessionBlockedPrefixes = sb, sessionPermitPrefixes = sp\<rparr>) \<noteq> None
        \<longleftrightarrow> findBlockedInvocations input pb pp sb sp \<noteq> []"
    by (simp add: userBash_def Let_def)
  have empty: "findBlockedInvocations [] pb pp sb sp = []"
    by (simp add: findBlockedInvocations_def splitShellSegments_def pushSegment_def trim_def)
  have tc: "toolCall ''bash'' (Some input)
         \<lparr>persistentBlockedPrefixes = pb, persistentPermitPrefixes = pp,
          sessionBlockedPrefixes = sb, sessionPermitPrefixes = sp\<rparr> \<noteq> None
        \<longleftrightarrow> findBlockedInvocations input pb pp sb sp \<noteq> []"
    using empty by (cases "input = []") (simp_all add: toolCall_def Let_def)
  show ?thesis
    using eq ne ub tc gcloud_scenario gcloud_scenario_segments by blast
qed

theorem whole_command_resolution_witness:
  "\<exists>seg \<in> set (splitShellSegments ''gcloud compute instances list; echo hi'').
     segmentRecord (buildRules []) (buildRules []) (buildRules [''gcloud'']) (buildRules []) seg
       \<noteq> None"
proof -
  note t = whole_command_resolution
    [of "''gcloud compute instances list; echo hi''" "[''gcloud'']" "[]" "[]" "[]"]
  from t have "findBlockedInvocations ''gcloud compute instances list; echo hi'' [''gcloud''] [] [] []
      = [\<lparr>invocation = ''gcloud compute instances list'', matchedBlocks = [''gcloud'']\<rparr>]"
    by blast
  then have a: "findBlockedInvocations ''gcloud compute instances list; echo hi'' [''gcloud''] [] [] []
             \<noteq> []"
    by simp
  show ?thesis using t a by blast
qed

subsection \<open>Invocation normalization\<close>

lemma normalize_unfold:
  "normalizeInvocationTokens toks =
     (case dropWhile isEnvAssignment toks of
        [] \<Rightarrow> []
      | t # rest \<Rightarrow>
          (if normalizeCommandName t = ''env''
           then normalizeInvocationTokens (skipEnvArguments rest)
           else if normalizeCommandName t = ''sudo''
           then normalizeInvocationTokens (skipSudoOptions rest)
           else if normalizeCommandName t = ''command'' \<or> normalizeCommandName t = ''nohup''
                   \<or> normalizeCommandName t = ''time''
           then normalizeInvocationTokens (dropWhile (startsWith ''-'') rest)
           else normalizeCommandName t # rest))"
  by (rule normalizeInvocationTokens.simps)

lemma wrapper_names:
  "\<not> isEnvAssignment ''sudo'' \<and> normalizeCommandName ''sudo'' = ''sudo''
   \<and> \<not> isEnvAssignment ''env'' \<and> normalizeCommandName ''env'' = ''env''
   \<and> \<not> isEnvAssignment ''command'' \<and> normalizeCommandName ''command'' = ''command''
   \<and> \<not> isEnvAssignment ''nohup'' \<and> normalizeCommandName ''nohup'' = ''nohup''
   \<and> \<not> isEnvAssignment ''time'' \<and> normalizeCommandName ''time'' = ''time''"
  by code_simp

lemma normalize_sudo:
  "normalizeInvocationTokens (''sudo'' # ts) = normalizeInvocationTokens (skipSudoOptions ts)"
  using wrapper_names by (subst normalize_unfold) simp

lemma normalize_env:
  "normalizeInvocationTokens (''env'' # ts) = normalizeInvocationTokens (skipEnvArguments ts)"
  using wrapper_names by (subst normalize_unfold) simp

lemma normalize_plain_wrapper:
  "w = ''command'' \<or> w = ''nohup'' \<or> w = ''time'' \<Longrightarrow>
   normalizeInvocationTokens (w # ts) = normalizeInvocationTokens (dropWhile (startsWith ''-'') ts)"
  using wrapper_names by (subst normalize_unfold) auto

lemma sudo_value_options:
  "\<forall>opt \<in> set SUDO_OPTIONS_WITH_VALUE.
     startsWith ''-'' opt \<and> normalizeCommandName opt \<in> set SUDO_OPTIONS_WITH_VALUE"
  by code_simp

lemma skipSudoOptions_value:
  "opt \<in> set SUDO_OPTIONS_WITH_VALUE \<Longrightarrow>
   skipSudoOptions (opt # v # rest) = skipSudoOptions rest"
  using sudo_value_options by simp

lemma normalization_examples:
  "normalizeInvocationTokens (tokenizeShellWords ''sudo -u root kubectl get pods'')
     = [''kubectl'', ''get'', ''pods'']
   \<and> normalizeInvocationTokens (tokenizeShellWords ''env FOO=bar kubectl get pods'')
     = [''kubectl'', ''get'', ''pods'']
   \<and> normalizeInvocationTokens (tokenizeShellWords ''sudo env FOO=1 kubectl get pods'')
     = [''kubectl'', ''get'', ''pods'']"
  by code_simp

text \<open>
  Claim C4. The three wrapped commands of the specification normalize to
  \<open>kubectl get pods\<close>; after \<open>sudo\<close>, an option of the recognized set takes the token after
  it along; and after each wrapper (\<open>sudo\<close>, \<open>env\<close>, \<open>command\<close>, \<open>nohup\<close>, \<open>time\<close>) and
  its options normalization starts again on what is left, so wrappers nest.
\<close>

theorem normalization_strips_wrappers:
  "normalizeInvocationTokens (tokenizeShellWords ''sudo -u root kubectl get pods'')
     = [''kubectl'', ''get'', ''pods'']
   \<and> normalizeInvocationTokens (tokenizeShellWords ''env FOO=bar kubectl get pods'')
     = [''kubectl'', ''get'', ''pods'']
   \<and> normalizeInvocationTokens (tokenizeShellWords ''sudo env FOO=1 kubectl get pods'')
     = [''kubectl'', ''get'', ''pods'']
   \<and> (\<forall>opt \<in> set SUDO_OPTIONS_WITH_VALUE.
        normalizeInvocationTokens (''sudo'' # opt # v # rest) =
        normalizeInvocationTokens (''sudo'' # rest))
   \<and> normalizeInvocationTokens (''sudo'' # ts) = normalizeInvocationTokens (skipSudoOptions ts)
   \<and> normalizeInvocationTokens (''env'' # ts) = normalizeInvocationTokens (skipEnvArguments ts)
   \<and> (\<forall>w \<in> {''command'', ''nohup'', ''time''}.
        normalizeInvocationTokens (w # ts) =
        normalizeInvocationTokens (dropWhile (startsWith ''-'') ts))"
  using normalization_examples normalize_sudo normalize_env normalize_plain_wrapper [of _ ts]
    skipSudoOptions_value [of _ v rest]
  by auto

theorem normalization_strips_wrappers_witness:
  "normalizeInvocationTokens [''sudo'', ''--user'', ''root'', ''nohup'', ''kubectl'', ''get''] =
   normalizeInvocationTokens [''sudo'', ''nohup'', ''kubectl'', ''get'']
   \<and> normalizeInvocationTokens [''nohup'', ''kubectl'', ''get''] =
     normalizeInvocationTokens (dropWhile (startsWith ''-'') [''kubectl'', ''get''])"
  using normalization_strips_wrappers
    [of "''root''" "[''nohup'', ''kubectl'', ''get'']" "[''kubectl'', ''get'']"]
  by (simp add: SUDO_OPTIONS_WITH_VALUE_def)

subsection \<open>Rule compilation\<close>

lemma tokenizeLoop_plain_word:
  "\<forall>ch \<in> set w. plainChar ch \<Longrightarrow>
   tokenizeLoop (w @ cs) toks cur None False = tokenizeLoop cs toks (cur @ w) None False"
  by (induction w arbitrary: cur) (simp_all add: plainChar_def)

lemma tokenizeLoop_join_plain:
  "\<forall>t \<in> set ts. plainToken t \<Longrightarrow>
   tokenizeLoop (join '' '' ts) toks [] None False = toks @ ts"
proof (induction "'' ''" ts arbitrary: toks rule: join.induct)
  case 1
  show ?case by simp
next
  case (2 x)
  then have "tokenizeLoop (x @ []) toks [] None False = tokenizeLoop [] toks ([] @ x) None False"
    by (intro tokenizeLoop_plain_word) (simp add: plainToken_def)
  then show ?case using 2 by (simp add: plainToken_def)
next
  case (3 x y ys)
  have px: "\<forall>ch \<in> set x. plainChar ch" and nx: "x \<noteq> []"
    using 3(2) by (simp_all add: plainToken_def)
  have "tokenizeLoop (join '' '' (x # y # ys)) toks [] None False
        = tokenizeLoop (x @ ('' '' @ join '' '' (y # ys))) toks [] None False"
    by simp
  also have "\<dots> = tokenizeLoop ('' '' @ join '' '' (y # ys)) toks ([] @ x) None False"
    using px by (rule tokenizeLoop_plain_word)
  also have "\<dots> = tokenizeLoop (join '' '' (y # ys)) (toks @ [x]) [] None False"
    using nx by (simp add: isSpace_def)
  also have "\<dots> = (toks @ [x]) @ (y # ys)"
    using 3 by simp
  finally show ?case by simp
qed

lemma tokenize_join_plain:
  "\<forall>t \<in> set ts. plainToken t \<Longrightarrow> tokenizeShellWords (join '' '' ts) = ts"
  using tokenizeLoop_join_plain [of ts "[]"] by (simp add: tokenizeShellWords_def)

lemma join_plain_ends:
  "ts \<noteq> [] \<Longrightarrow> \<forall>t \<in> set ts. plainToken t \<Longrightarrow>
   join '' '' ts \<noteq> [] \<and> \<not> isSpace (hd (join '' '' ts)) \<and> \<not> isSpace (last (join '' '' ts))"
proof (induction "'' ''" ts rule: join.induct)
  case 1
  then show ?case by simp
next
  case (2 x)
  then have "x \<noteq> []" and "plainChar (hd x)" and "plainChar (last x)"
    by (simp_all add: plainToken_def)
  then show ?case by (simp add: plainChar_def)
next
  case (3 x y ys)
  then have r: "join '' '' (y # ys) \<noteq> []"
    and l: "\<not> isSpace (last (join '' '' (y # ys)))"
    by simp_all
  have x: "x \<noteq> []" and "plainChar (hd x)"
    using 3(3) by (simp_all add: plainToken_def)
  then have h: "\<not> isSpace (hd x)"
    by (simp add: plainChar_def)
  have j: "join '' '' (x # y # ys) = x @ '' '' @ join '' '' (y # ys)"
    by simp
  show ?case
    unfolding j using x h r l by simp
qed

lemma trim_no_outer_space:
  "s \<noteq> [] \<Longrightarrow> \<not> isSpace (hd s) \<Longrightarrow> \<not> isSpace (last s) \<Longrightarrow> trim s = s"
proof -
  assume s: "s \<noteq> []" and h: "\<not> isSpace (hd s)" and l: "\<not> isSpace (last s)"
  have a: "dropWhile isSpace s = s"
    using s h by (cases s) auto
  have b: "dropWhile isSpace (rev s) = rev s"
    using s l by (cases s rule: rev_cases) auto
  show ?thesis by (simp add: trim_def a b)
qed

text \<open>
  Where the normalized tokens of a raw prefix are plain and normalizing them again changes
  nothing, the compiled rule does carry them: the canonical prefix is the tokens joined by
  single spaces, and tokenizing it gives the tokens back.
\<close>

lemma rule_compilation_plain_tokens:
  assumes "normalizeInvocationTokens (tokenizeShellWords (trim raw)) = ts" "ts \<noteq> []"
    and "\<forall>t \<in> set ts. plainToken t"
    and "normalizeInvocationTokens ts = ts"
  shows "canonicalizePrefix raw = Some (join '' '' ts)
       \<and> buildRules [join '' '' ts] =
           [\<lparr>prefix = join '' '' ts, tokens = ts, tokenCount = int (length ts)\<rparr>]"
proof -
  have c: "canonicalizePrefix raw = Some (join '' '' ts)"
    using assms(1,2) by (simp add: canonicalizePrefix_def)
  have e: "join '' '' ts \<noteq> []"
    using join_plain_ends [OF assms(2,3)] by blast
  have t: "trim (join '' '' ts) = join '' '' ts"
    using join_plain_ends [OF assms(2,3)] by (intro trim_no_outer_space) blast+
  have c2: "canonicalizePrefix (join '' '' ts) = Some (join '' '' ts)"
    using assms(2,3,4) by (simp add: canonicalizePrefix_def t tokenize_join_plain)
  show ?thesis
    using c c2 e assms(3) by (simp add: tokenize_join_plain)
qed

text \<open>
  Claim C6, at the raw prefix \<open>echo "a b"\<close>. Tokenizing and normalizing it gives the two
  tokens \<open>echo\<close> and \<open>a b\<close>; its canonical prefix is \<open>echo a b\<close>, and the rule compiled
  from that has the three tokens \<open>echo\<close>, \<open>a\<close>, \<open>b\<close> and token count 3. After a session
  block of \<open>echo "a b"\<close> the command \<open>echo "a b"\<close> is therefore not blocked, while
  \<open>echo a b\<close> is.
\<close>

theorem rule_compilation_retokenizes:
  "normalizeInvocationTokens
     (tokenizeShellWords (trim (''echo '' @ [CHR 0x22] @ ''a b'' @ [CHR 0x22])))
     = [''echo'', ''a b'']
   \<and> canonicalizePrefix (''echo '' @ [CHR 0x22] @ ''a b'' @ [CHR 0x22]) = Some ''echo a b''
   \<and> buildRules [''echo a b''] =
       [\<lparr>prefix = ''echo a b'', tokens = [''echo'', ''a'', ''b''], tokenCount = 3\<rparr>]
   \<and> sessionBlockedPrefixes
       (fst (blockSession (Some (''echo '' @ [CHR 0x22] @ ''a b'' @ [CHR 0x22])) initialState))
     = [''echo a b'']
   \<and> findBlockedInvocations (''echo '' @ [CHR 0x22] @ ''a b'' @ [CHR 0x22])
        [] [] [''echo a b''] [] = []
   \<and> findBlockedInvocations ''echo a b'' [] [] [''echo a b''] [] =
       [\<lparr>invocation = ''echo a b'', matchedBlocks = [''echo a b'']\<rparr>]"
  by code_simp

subsection \<open>Persistent mutations\<close>

lemma set_setAdd: "set (setAdd x xs) = insert x (set xs)"
  by (auto simp: setAdd_def)

lemma set_setDelete: "set (setDelete x xs) = set xs - {x}"
  by (simp add: setDelete_def)

lemma blockPersist_invalid:
  "\<not> truthy (canonicalizePrefix (argsOrEmpty args)) \<Longrightarrow>
   blockPersist save args st = (st, usageReply ''bash-guard-block-persist'')"
  by (auto simp: blockPersist_def truthy_def split: option.splits)

lemma permitPersist_invalid:
  "\<not> truthy (canonicalizePrefix (argsOrEmpty args)) \<Longrightarrow>
   permitPersist save args st = (st, usageReply ''bash-guard-permit-persist'')"
  by (auto simp: permitPersist_def truthy_def split: option.splits)

lemma blockPersist_failed:
  assumes "canonicalizePrefix (argsOrEmpty args) = Some p" "p \<noteq> []"
    and "\<forall>b q. save b q \<noteq> None"
  shows "sameRuleSets st (fst (blockPersist save args st))
         \<and> (\<exists>m. snd (blockPersist save args st) = [(m, Error)])"
proof -
  obtain m where m: "save (if \<not> setHas p (persistentBlockedPrefixes st) \<and>
            \<not> (setHas p (persistentPermitPrefixes st) \<and> \<not> setHas p (persistentBlockedPrefixes st) \<and>
               isBlockedByPersistentRules p (persistentBlockedPrefixes st)
                 (setDelete p (persistentPermitPrefixes st)))
         then setAdd p (persistentBlockedPrefixes st) else persistentBlockedPrefixes st)
        (setDelete p (persistentPermitPrefixes st)) = Some m"
    using assms(3) by (meson option.exhaust)
  show ?thesis
    using assms(1,2) m
    by (auto simp: blockPersist_def Let_def sameRuleSets_def set_setAdd set_setDelete setHas_def)
qed

lemma permitPersist_failed:
  assumes "canonicalizePrefix (argsOrEmpty args) = Some p" "p \<noteq> []"
    and "\<forall>b q. save b q \<noteq> None"
  shows "sameRuleSets st (fst (permitPersist save args st))
         \<and> (\<exists>m. snd (permitPersist save args st) = [(m, Error)])"
proof -
  obtain m where m: "save (setDelete p (persistentBlockedPrefixes st))
        (setAdd p (persistentPermitPrefixes st)) = Some m"
    using assms(3) by (meson option.exhaust)
  show ?thesis
    using assms(1,2) m
    by (auto simp: permitPersist_def Let_def sameRuleSets_def set_setAdd set_setDelete setHas_def)
qed

lemma blockPersist_error_rolled_back:
  "reportsError (snd (blockPersist save args st)) \<Longrightarrow>
   sameRuleSets st (fst (blockPersist save args st))"
  by (auto simp: blockPersist_def Let_def sameRuleSets_def set_setAdd set_setDelete setHas_def
      reportsError_def usageReply_def split: option.splits if_splits)

lemma permitPersist_error_rolled_back:
  "reportsError (snd (permitPersist save args st)) \<Longrightarrow>
   sameRuleSets st (fst (permitPersist save args st))"
  by (auto simp: permitPersist_def Let_def sameRuleSets_def set_setAdd set_setDelete setHas_def
      reportsError_def usageReply_def split: option.splits if_splits)

lemma blockPersist_quiet_saved:
  "truthy (canonicalizePrefix (argsOrEmpty args)) \<Longrightarrow>
   \<not> reportsError (snd (blockPersist save args st)) \<Longrightarrow>
   save (persistentBlockedPrefixes (fst (blockPersist save args st)))
        (persistentPermitPrefixes (fst (blockPersist save args st))) = None"
  by (auto simp: blockPersist_def Let_def truthy_def reportsError_def split: option.splits if_splits)

lemma permitPersist_quiet_saved:
  "truthy (canonicalizePrefix (argsOrEmpty args)) \<Longrightarrow>
   \<not> reportsError (snd (permitPersist save args st)) \<Longrightarrow>
   save (persistentBlockedPrefixes (fst (permitPersist save args st)))
        (persistentPermitPrefixes (fst (permitPersist save args st))) = None"
  by (auto simp: permitPersist_def Let_def truthy_def reportsError_def split: option.splits if_splits)

lemma kubectl_get_canonical:
  "canonicalizePrefix (argsOrEmpty (Some ''kubectl get'')) = Some ''kubectl get''
   \<and> truthy (canonicalizePrefix (argsOrEmpty (Some ''kubectl get'')))"
  by code_simp

text \<open>
  Claim C7. For block-persistent and permit-persistent alike: when the handler reports an
  error, each of the four rule sets holds what it held before the command; when it accepts
  the prefix and reports no error, the write of exactly the sets it leaves in memory has
  succeeded; and when the writes to the storage fail, the rule sets are as before and, for
  an accepted prefix, the one notification sent has level \<open>Error\<close>. (A rejected prefix
  changes nothing and attempts no write.)
\<close>

theorem persistent_mutation_atomic:
  "(reportsError (snd (blockPersist save args st)) \<longrightarrow>
      sameRuleSets st (fst (blockPersist save args st)))
   \<and> (reportsError (snd (permitPersist save args st)) \<longrightarrow>
      sameRuleSets st (fst (permitPersist save args st)))
   \<and> (truthy (canonicalizePrefix (argsOrEmpty args))
        \<and> \<not> reportsError (snd (blockPersist save args st)) \<longrightarrow>
      save (persistentBlockedPrefixes (fst (blockPersist save args st)))
           (persistentPermitPrefixes (fst (blockPersist save args st))) = None)
   \<and> (truthy (canonicalizePrefix (argsOrEmpty args))
        \<and> \<not> reportsError (snd (permitPersist save args st)) \<longrightarrow>
      save (persistentBlockedPrefixes (fst (permitPersist save args st)))
           (persistentPermitPrefixes (fst (permitPersist save args st))) = None)
   \<and> ((\<forall>blocks permits. save blocks permits \<noteq> None) \<longrightarrow>
        sameRuleSets st (fst (blockPersist save args st))
        \<and> sameRuleSets st (fst (permitPersist save args st))
        \<and> (truthy (canonicalizePrefix (argsOrEmpty args)) \<longrightarrow>
             (\<exists>m. snd (blockPersist save args st) = [(m, Error)])
             \<and> (\<exists>m. snd (permitPersist save args st) = [(m, Error)])))"
proof -
  have fails: "(\<forall>blocks permits. save blocks permits \<noteq> None) \<longrightarrow>
        sameRuleSets st (fst (blockPersist save args st))
        \<and> sameRuleSets st (fst (permitPersist save args st))
        \<and> (truthy (canonicalizePrefix (argsOrEmpty args)) \<longrightarrow>
             (\<exists>m. snd (blockPersist save args st) = [(m, Error)])
             \<and> (\<exists>m. snd (permitPersist save args st) = [(m, Error)]))"
  proof (intro impI)
    assume all: "\<forall>blocks permits. save blocks permits \<noteq> None"
    show "sameRuleSets st (fst (blockPersist save args st))
        \<and> sameRuleSets st (fst (permitPersist save args st))
        \<and> (truthy (canonicalizePrefix (argsOrEmpty args)) \<longrightarrow>
             (\<exists>m. snd (blockPersist save args st) = [(m, Error)])
             \<and> (\<exists>m. snd (permitPersist save args st) = [(m, Error)]))"
    proof (cases "truthy (canonicalizePrefix (argsOrEmpty args))")
      case False
      then show ?thesis
        by (simp add: blockPersist_invalid permitPersist_invalid sameRuleSets_def)
    next
      case True
      then obtain p where p: "canonicalizePrefix (argsOrEmpty args) = Some p" "p \<noteq> []"
        by (auto simp: truthy_def split: option.splits)
      show ?thesis
        using blockPersist_failed [OF p all] permitPersist_failed [OF p all] by blast
    qed
  qed
  have b1: "reportsError (snd (blockPersist save args st)) \<longrightarrow>
      sameRuleSets st (fst (blockPersist save args st))"
    by (simp add: blockPersist_error_rolled_back)
  have p1: "reportsError (snd (permitPersist save args st)) \<longrightarrow>
      sameRuleSets st (fst (permitPersist save args st))"
    by (simp add: permitPersist_error_rolled_back)
  have b2: "truthy (canonicalizePrefix (argsOrEmpty args))
        \<and> \<not> reportsError (snd (blockPersist save args st)) \<longrightarrow>
      save (persistentBlockedPrefixes (fst (blockPersist save args st)))
           (persistentPermitPrefixes (fst (blockPersist save args st))) = None"
    by (simp add: blockPersist_quiet_saved)
  have p2: "truthy (canonicalizePrefix (argsOrEmpty args))
        \<and> \<not> reportsError (snd (permitPersist save args st)) \<longrightarrow>
      save (persistentBlockedPrefixes (fst (permitPersist save args st)))
           (persistentPermitPrefixes (fst (permitPersist save args st))) = None"
    by (simp add: permitPersist_quiet_saved)
  from b1 p1 b2 p2 fails show ?thesis
    by (intro conjI)
qed

theorem persistent_mutation_atomic_witness:
  "sameRuleSets
     \<lparr>persistentBlockedPrefixes = [''kubectl''], persistentPermitPrefixes = [''kubectl get''],
      sessionBlockedPrefixes = [], sessionPermitPrefixes = []\<rparr>
     (fst (blockPersist (storageFails ''EACCES'') (Some ''kubectl get'')
        \<lparr>persistentBlockedPrefixes = [''kubectl''], persistentPermitPrefixes = [''kubectl get''],
         sessionBlockedPrefixes = [], sessionPermitPrefixes = []\<rparr>))
   \<and> (\<exists>m. snd (permitPersist (storageFails ''EACCES'') (Some ''kubectl get'')
        \<lparr>persistentBlockedPrefixes = [''kubectl''], persistentPermitPrefixes = [''kubectl get''],
         sessionBlockedPrefixes = [], sessionPermitPrefixes = []\<rparr>) = [(m, Error)])"
proof -
  have h: "\<forall>blocks permits. storageFails ''EACCES'' blocks permits \<noteq> None"
    by (simp add: storageFails_def)
  show ?thesis
    using persistent_mutation_atomic [of "storageFails ''EACCES''" "Some ''kubectl get''"
        "\<lparr>persistentBlockedPrefixes = [''kubectl''], persistentPermitPrefixes = [''kubectl get''],
         sessionBlockedPrefixes = [], sessionPermitPrefixes = []\<rparr>"]
      h kubectl_get_canonical
    by blast
qed

lemma blockPersist_covered:
  assumes "canonicalizePrefix (argsOrEmpty args) = Some p" "p \<noteq> []"
    and "p \<in> set (persistentPermitPrefixes st)"
    and "isBlockedByPersistentRules p (persistentBlockedPrefixes st)
           (setDelete p (persistentPermitPrefixes st))"
  shows "persistentBlockedPrefixes (fst (blockPersist save args st)) = persistentBlockedPrefixes st
       \<and> (save (persistentBlockedPrefixes st) (setDelete p (persistentPermitPrefixes st)) = None
            \<longrightarrow> persistentPermitPrefixes (fst (blockPersist save args st))
                  = setDelete p (persistentPermitPrefixes st))"
  using assms
  by (auto simp: blockPersist_def Let_def setHas_def split: option.splits)

lemma kubectl_get_covered:
  "isBlockedByPersistentRules ''kubectl get'' [''kubectl''] []
   \<and> setDelete ''kubectl get'' [''kubectl get''] = []"
  by code_simp

text \<open>
  Claim C8. When block-persistent is given a prefix that is persistently permitted and
  that the persistent rules block once the permit is removed, the persistent block set
  stays as it is, whatever the write does, and a successful write leaves the permit
  removed. From blocks \<open>{kubectl}\<close> and permits \<open>{kubectl get}\<close>, block-persistent on
  \<open>kubectl get\<close> leaves the blocks at \<open>{kubectl}\<close> and, when the write succeeds, no permit.
\<close>

theorem block_persistent_redundancy:
  "(canonicalizePrefix (argsOrEmpty args) = Some p \<and> p \<noteq> []
      \<and> p \<in> set (persistentPermitPrefixes st)
      \<and> isBlockedByPersistentRules p (persistentBlockedPrefixes st)
           (setDelete p (persistentPermitPrefixes st))
    \<longrightarrow> persistentBlockedPrefixes (fst (blockPersist save args st))
          = persistentBlockedPrefixes st
        \<and> (save (persistentBlockedPrefixes st) (setDelete p (persistentPermitPrefixes st)) = None
            \<longrightarrow> persistentPermitPrefixes (fst (blockPersist save args st))
                  = setDelete p (persistentPermitPrefixes st)))
   \<and> persistentBlockedPrefixes
        (fst (blockPersist save (Some ''kubectl get'')
           \<lparr>persistentBlockedPrefixes = [''kubectl''],
            persistentPermitPrefixes = [''kubectl get''],
            sessionBlockedPrefixes = sb, sessionPermitPrefixes = sp\<rparr>)) = [''kubectl'']
   \<and> (save [''kubectl''] [] = None \<longrightarrow>
        persistentPermitPrefixes
          (fst (blockPersist save (Some ''kubectl get'')
             \<lparr>persistentBlockedPrefixes = [''kubectl''],
              persistentPermitPrefixes = [''kubectl get''],
              sessionBlockedPrefixes = sb, sessionPermitPrefixes = sp\<rparr>)) = [])"
proof -
  let ?st0 = "\<lparr>persistentBlockedPrefixes = [''kubectl''],
              persistentPermitPrefixes = [''kubectl get''],
              sessionBlockedPrefixes = sb, sessionPermitPrefixes = sp\<rparr>"
  have c: "canonicalizePrefix (argsOrEmpty (Some ''kubectl get'')) = Some ''kubectl get''"
    using kubectl_get_canonical by blast
  have ne: "''kubectl get'' \<noteq> []" by simp
  have m: "''kubectl get'' \<in> set (persistentPermitPrefixes ?st0)" by simp
  have b: "isBlockedByPersistentRules ''kubectl get'' (persistentBlockedPrefixes ?st0)
             (setDelete ''kubectl get'' (persistentPermitPrefixes ?st0))"
    using kubectl_get_covered by simp
  have d: "setDelete ''kubectl get'' (persistentPermitPrefixes ?st0) = []"
    using kubectl_get_covered by simp
  have concrete: "persistentBlockedPrefixes (fst (blockPersist save (Some ''kubectl get'') ?st0))
          = [''kubectl'']
        \<and> (save [''kubectl''] [] = None \<longrightarrow>
             persistentPermitPrefixes (fst (blockPersist save (Some ''kubectl get'') ?st0)) = [])"
    using blockPersist_covered [OF c ne m b, of save] d by simp
  show ?thesis
    using blockPersist_covered [of args p st save] concrete by blast
qed

theorem block_persistent_redundancy_witness:
  "persistentPermitPrefixes
     (fst (blockPersist storageOk (Some ''kubectl get'')
        \<lparr>persistentBlockedPrefixes = [''kubectl''],
         persistentPermitPrefixes = [''kubectl get''],
         sessionBlockedPrefixes = [], sessionPermitPrefixes = []\<rparr>)) = []
   \<and> persistentBlockedPrefixes
     (fst (blockPersist storageOk (Some ''kubectl get'')
        \<lparr>persistentBlockedPrefixes = [''kubectl''],
         persistentPermitPrefixes = [''kubectl get''],
         sessionBlockedPrefixes = [], sessionPermitPrefixes = []\<rparr>)) = [''kubectl'']"
proof -
  have ok: "storageOk [''kubectl''] [] = None"
    by (simp add: storageOk_def)
  show ?thesis
    using block_persistent_redundancy [of "Some ''kubectl get''" "''kubectl get''"
        "\<lparr>persistentBlockedPrefixes = [''kubectl''],
         persistentPermitPrefixes = [''kubectl get''],
         sessionBlockedPrefixes = [], sessionPermitPrefixes = []\<rparr>" storageOk "[]" "[]"] ok
    by blast
qed

subsection \<open>Loading the stored configuration\<close>

lemma canonicalizeEach_strings:
  "stringsOf xs = Some ss \<Longrightarrow> canonicalizeEach xs = Inr (map canonicalizePrefix ss)"
  by (induction xs arbitrary: ss rule: stringsOf.induct) (auto split: option.splits)

lemma canonicalSet_strings:
  "stringsOf xs = Some ss \<Longrightarrow>
   canonicalSet xs = Inr (newSet (filterBoolean (map canonicalizePrefix ss)))"
  by (simp add: canonicalSet_def canonicalizeEach_strings)

lemma canonicalSet_defaults:
  "canonicalSet (map JString DEFAULT_BLOCKED_PREFIXES) = Inr [''gcloud'', ''kubectl'']"
  by code_simp

lemma canonicalSet_empty: "canonicalSet [] = Inr []"
  by (simp add: canonicalSet_def newSet_def filterBoolean_def)

lemma load_no_permitted:
  "permittedPrefixes (loadPersistedGuardConfig (Parsed b None)) = []"
  by (simp add: loadPersistedGuardConfig_def canonicalSet_empty split: sum.splits)

text \<open>
  Claim C10 fails when a stored array holds an element that is not a string: the file
  parses, it has a \<open>permittedPrefixes\<close> array and no \<open>blockedPrefixes\<close> array, and yet the
  loaded block set is the default one, since canonicalizing the element throws and the
  loader falls back to the defaults.
\<close>

theorem load_defaults_with_permitted_array:
  "blockedPrefixes (loadPersistedGuardConfig (Parsed None (Some [JOther])))
     = [''gcloud'', ''kubectl'']
   \<and> blockedPrefixes (loadPersistedGuardConfig (Parsed None (Some [JOther]))) \<noteq> []"
  by code_simp

text \<open>
  Claim C10, amended. When the stored file parses and every element of the arrays it has
  is a string: the block set is the canonicalized \<open>blockedPrefixes\<close> array when there is
  one, empty when there is none but there is a \<open>permittedPrefixes\<close> array, and the default
  \<open>{gcloud, kubectl}\<close> only when there is neither; the load reports no error. A file that
  parses and has no \<open>permittedPrefixes\<close> array always yields the empty permit set.
\<close>

theorem loader_field_asymmetry:
  "(stringsOf (case b of Some xs \<Rightarrow> xs | None \<Rightarrow> []) = Some bs
      \<and> stringsOf (case p of Some ys \<Rightarrow> ys | None \<Rightarrow> []) = Some ps
    \<longrightarrow> blockedPrefixes (loadPersistedGuardConfig (Parsed b p)) =
          (if b \<noteq> None then newSet (filterBoolean (map canonicalizePrefix bs))
           else if p \<noteq> None then []
           else [''gcloud'', ''kubectl''])
        \<and> permittedPrefixes (loadPersistedGuardConfig (Parsed b p)) =
          (if p \<noteq> None then newSet (filterBoolean (map canonicalizePrefix ps)) else [])
        \<and> loadError (loadPersistedGuardConfig (Parsed b p)) = None)
   \<and> permittedPrefixes (loadPersistedGuardConfig (Parsed b None)) = []"
proof (intro conjI impI)
  assume h: "stringsOf (case b of Some xs \<Rightarrow> xs | None \<Rightarrow> []) = Some bs
      \<and> stringsOf (case p of Some ys \<Rightarrow> ys | None \<Rightarrow> []) = Some ps"
  have pset: "canonicalSet (case p of Some ys \<Rightarrow> ys | None \<Rightarrow> [])
                = Inr (newSet (filterBoolean (map canonicalizePrefix ps)))"
    using h by (simp add: canonicalSet_strings)
  have pnone: "p = None \<Longrightarrow> ps = []"
    using h by auto
  have bset: "canonicalSet
        (case b of Some xs \<Rightarrow> xs
         | None \<Rightarrow> (if p \<noteq> None then [] else map JString DEFAULT_BLOCKED_PREFIXES))
      = Inr (if b \<noteq> None then newSet (filterBoolean (map canonicalizePrefix bs))
             else if p \<noteq> None then [] else [''gcloud'', ''kubectl''])"
    using h by (cases b) (auto simp: canonicalSet_strings canonicalSet_defaults canonicalSet_empty)
  show "blockedPrefixes (loadPersistedGuardConfig (Parsed b p)) =
          (if b \<noteq> None then newSet (filterBoolean (map canonicalizePrefix bs))
           else if p \<noteq> None then []
           else [''gcloud'', ''kubectl''])"
    by (simp add: loadPersistedGuardConfig_def bset pset)
  show "permittedPrefixes (loadPersistedGuardConfig (Parsed b p)) =
          (if p \<noteq> None then newSet (filterBoolean (map canonicalizePrefix ps)) else [])"
    using pnone by (simp add: loadPersistedGuardConfig_def bset pset newSet_def filterBoolean_def)
  show "loadError (loadPersistedGuardConfig (Parsed b p)) = None"
    by (simp add: loadPersistedGuardConfig_def bset pset)
next
  show "permittedPrefixes (loadPersistedGuardConfig (Parsed b None)) = []"
    by (rule load_no_permitted)
qed

theorem loader_field_asymmetry_witness:
  "blockedPrefixes (loadPersistedGuardConfig (Parsed None (Some [JString ''kubectl get'']))) = []
   \<and> loadError (loadPersistedGuardConfig (Parsed None (Some [JString ''kubectl get'']))) = None"
  using loader_field_asymmetry
    [of None "[]" "Some [JString ''kubectl get'']" "[''kubectl get'']"]
  by simp

subsection \<open>Disjointness of block and permit sets\<close>





















end
